theory Spec2Isabelle
  imports Complex_Main "HOL-Library.Mapping"
begin

section \<open>The rate limiter middleware of src/middleware/rateLimiter.ts\<close>

text \<open>
  The module keeps one store, \<^verbatim>\<open>const rateLimitStore = new Map()\<close>, declared at module
  level. Every function of the module reads and writes that one store, so each function
  of the model takes the store and returns the store it leaves behind.

  Numbers: \<^verbatim>\<open>Date.now()\<close> is an integral number of milliseconds, \<^verbatim>\<open>parseInt\<close>
  yields an integer or \<^verbatim>\<open>NaN\<close>, and the counts are integers, so numbers are \<open>int\<close>
  and \<^verbatim>\<open>NaN\<close> is \<open>None\<close>. All values stay far below \<open>2^53\<close>, where the
  arithmetic of a double is exact. Each function that calls \<^verbatim>\<open>Date.now()\<close> takes the
  value that call returns as its argument \<open>now\<close>.
\<close>

subsection \<open>Data\<close>

record RateLimitConfig =
  limit :: int
  windowSec :: int

record UserRateLimit =
  count :: int
  resetTime :: int

type_synonym RateLimitStore = "(string, UserRateLimit) mapping"

text \<open>\<^verbatim>\<open>Partial<RateLimitConfig>\<close>: a property that is absent is \<open>None\<close>.\<close>

record PartialRateLimitConfig =
  customLimit :: "int option"
  customWindowSec :: "int option"

text \<open>The two variables of \<^verbatim>\<open>process.env\<close> the module reads; unset is \<open>None\<close>.\<close>

record ProcessEnv =
  RATE_LIMIT :: "string option"
  RATE_WINDOW_SEC :: "string option"

text \<open>The two errors \<^verbatim>\<open>getConfig\<close> throws, named after their messages.\<close>

datatype ConfigError =
  RATE_LIMIT_must_be_a_positive_number
  | RATE_WINDOW_SEC_must_be_a_positive_number

text \<open>What \<^verbatim>\<open>getUserRateLimitData\<close> returns.\<close>

record RateLimitData =
  remaining :: int
  resetIn :: int

text \<open>
  What one call of the middleware does to the response: whether it calls \<^verbatim>\<open>next()\<close>
  (otherwise it answers with status 429), and the numbers it writes into the three headers
  \<^verbatim>\<open>X-RateLimit-Limit\<close>, \<^verbatim>\<open>X-RateLimit-Remaining\<close> and \<^verbatim>\<open>X-RateLimit-Reset\<close>.
\<close>

record Decision =
  admitted :: bool
  X_RateLimit_Limit :: int
  X_RateLimit_Remaining :: int
  X_RateLimit_Reset :: int

subsection \<open>parseInt with radix 10\<close>

text \<open>
  \<^verbatim>\<open>parseInt(s, 10)\<close> skips leading white space, reads an optional sign and then the
  longest run of decimal digits; with no digit the result is \<^verbatim>\<open>NaN\<close>. Characters are
  bytes here, so only the six ASCII white space characters are skipped, not the white space
  of Unicode beyond them (U+00A0, U+FEFF and others), and the digits are read exactly, where
  the builtin rounds a value above \<open>2^53\<close> to the nearest double. The values of the
  environment used below are short ASCII strings, on which the two agree.
\<close>

definition isWhiteSpace :: "char \<Rightarrow> bool" where
  "isWhiteSpace c = (of_char c \<in> set [9, 10, 11, 12, 13, 32 :: nat])"

definition isDigit :: "char \<Rightarrow> bool" where
  "isDigit c = (48 \<le> (of_char c :: nat) \<and> (of_char c :: nat) \<le> 57)"

definition digitValue :: "char \<Rightarrow> int" where
  "digitValue c = int (of_char c) - 48"

definition parseInt :: "string \<Rightarrow> int option" where
  "parseInt s =
     (let trimmed = dropWhile isWhiteSpace s;
          negative = (case trimmed of [] \<Rightarrow> False | c # _ \<Rightarrow> c = CHR ''-'');
          unsigned = (case trimmed of [] \<Rightarrow> []
                      | c # rest \<Rightarrow> if c = CHR ''-'' \<or> c = CHR ''+'' then rest else trimmed);
          digits = takeWhile isDigit unsigned;
          magnitude = foldl (\<lambda>acc c. 10 * acc + digitValue c) 0 digits
      in if digits = [] then None
         else Some (if negative then - magnitude else magnitude))"

subsection \<open>getConfig\<close>

text \<open>
  \<^verbatim>\<open>limit <= 0 || isNaN(limit)\<close>: a comparison with \<^verbatim>\<open>NaN\<close> is false, and
  \<^verbatim>\<open>isNaN\<close> is true of it.
\<close>

definition notPositive :: "int option \<Rightarrow> bool" where
  "notPositive n = ((case n of None \<Rightarrow> False | Some v \<Rightarrow> v \<le> 0) \<or> n = None)"

definition getConfig :: "ProcessEnv \<Rightarrow> ConfigError + RateLimitConfig" where
  "getConfig env =
     (let limit' = parseInt (case RATE_LIMIT env of None \<Rightarrow> ''5'' | Some s \<Rightarrow> s);
          windowSec' = parseInt (case RATE_WINDOW_SEC env of None \<Rightarrow> ''60'' | Some s \<Rightarrow> s)
      in if notPositive limit' then Inl RATE_LIMIT_must_be_a_positive_number
         else if notPositive windowSec' then Inl RATE_WINDOW_SEC_must_be_a_positive_number
         else Inr \<lparr>limit = the limit', windowSec = the windowSec'\<rparr>)"

subsection \<open>The store and its functions\<close>

definition cleanupExpiredEntries :: "int \<Rightarrow> RateLimitStore \<Rightarrow> RateLimitStore" where
  "cleanupExpiredEntries now store =
     Mapping.filter (\<lambda>userId data. \<not> now > resetTime data) store"

text \<open>\<^verbatim>\<open>Math.ceil(x / 1000)\<close> on an integer \<open>x\<close>.\<close>

definition ceilDiv1000 :: "int \<Rightarrow> int" where
  "ceilDiv1000 x = - ((- x) div 1000)"

definition getUserRateLimitData ::
  "int \<Rightarrow> RateLimitStore \<Rightarrow> string \<Rightarrow> RateLimitConfig \<Rightarrow> RateLimitData" where
  "getUserRateLimitData now store userId config =
     (case Mapping.lookup store userId of
        None \<Rightarrow> \<lparr>remaining = limit config, resetIn = windowSec config\<rparr>
      | Some userData \<Rightarrow>
          if now > resetTime userData
          then \<lparr>remaining = limit config, resetIn = windowSec config\<rparr>
          else \<lparr>remaining = max 0 (limit config - count userData),
                resetIn = ceilDiv1000 (resetTime userData - now)\<rparr>)"

text \<open>
  \<^verbatim>\<open>createRateLimiterMiddleware\<close> reads the environment through \<^verbatim>\<open>getConfig\<close>, which
  may throw, and then lays the custom properties over the result:
  \<^verbatim>\<open>{ ...baseConfig, ...customConfig }\<close>. A custom property that is present holds a
  number. The closure it returns is determined by the merged config: it is
  \<open>rateLimiterMiddleware config\<close> below, and the result of the model is that config.
\<close>

definition createRateLimiterMiddleware ::
  "ProcessEnv \<Rightarrow> PartialRateLimitConfig option \<Rightarrow> ConfigError + RateLimitConfig" where
  "createRateLimiterMiddleware env customConfig =
     (case getConfig env of
        Inl err \<Rightarrow> Inl err
      | Inr baseConfig \<Rightarrow>
          (case customConfig of
             None \<Rightarrow> Inr baseConfig
           | Some custom \<Rightarrow>
               Inr \<lparr>limit = (case customLimit custom of None \<Rightarrow> limit baseConfig | Some l \<Rightarrow> l),
                    windowSec = (case customWindowSec custom of
                                   None \<Rightarrow> windowSec baseConfig | Some w \<Rightarrow> w)\<rparr>))"

text \<open>
  The middleware. \<open>userId\<close> is what \<^verbatim>\<open>getUserId(req, res)\<close> returns; that function
  does not touch the store. The body calls \<^verbatim>\<open>Date.now()\<close> three times: inside
  \<^verbatim>\<open>cleanupExpiredEntries\<close> (\<open>tCleanup\<close>), in the body itself (\<open>now\<close>) and inside
  \<^verbatim>\<open>getUserRateLimitData\<close> (\<open>tData\<close>). \<^verbatim>\<open>userData.count++\<close> changes the object the
  store holds, so the store is updated with the incremented record. The headers are set
  before the limit is tested, and they carry the numbers as decimal strings; the model
  keeps the numbers. The body runs inside \<^verbatim>\<open>try\<close>; with a numeric config and a
  response that accepts headers none of its steps throws, so the \<^verbatim>\<open>catch\<close> branch
  (log and call \<^verbatim>\<open>next()\<close>) has no counterpart here.
\<close>

definition rateLimiterMiddleware ::
  "RateLimitConfig \<Rightarrow> int \<Rightarrow> int \<Rightarrow> int \<Rightarrow> string \<Rightarrow> RateLimitStore
     \<Rightarrow> Decision \<times> RateLimitStore" where
  "rateLimiterMiddleware config tCleanup now tData userId store =
     (let cleaned = cleanupExpiredEntries tCleanup store;
          resetTime' = now + windowSec config * 1000;
          userData =
            (case Mapping.lookup cleaned userId of
               None \<Rightarrow> \<lparr>count = 0, resetTime = resetTime'\<rparr>
             | Some d \<Rightarrow> if now > resetTime d then \<lparr>count = 0, resetTime = resetTime'\<rparr> else d);
          userData' = userData\<lparr>count := count userData + 1\<rparr>;
          store' = Mapping.update userId userData' cleaned;
          info = getUserRateLimitData tData store' userId config
      in (\<lparr>admitted = \<not> count userData' > limit config,
           X_RateLimit_Limit = limit config,
           X_RateLimit_Remaining = max 0 (remaining info),
           X_RateLimit_Reset = resetIn info\<rparr>,
          store'))"

text \<open>
  \<open>check\<close> is a call of the middleware during which the clock does not tick: the three
  readings of \<^verbatim>\<open>Date.now()\<close> return the same \<open>now\<close>. A statement about \<open>check\<close>
  speaks of those calls only; a call whose readings differ is a call of
  \<open>rateLimiterMiddleware\<close>.
\<close>

definition check ::
  "RateLimitConfig \<Rightarrow> RateLimitStore \<Rightarrow> string \<Rightarrow> int \<Rightarrow> Decision \<times> RateLimitStore" where
  "check config store userId now = rateLimiterMiddleware config now now now userId store"

record RateLimitStats =
  activeUsers :: nat
  totalEntries :: nat

definition getRateLimitStats :: "int \<Rightarrow> RateLimitStore \<Rightarrow> RateLimitStats \<times> RateLimitStore" where
  "getRateLimitStats now store =
     (let cleaned = cleanupExpiredEntries now store
      in (\<lparr>activeUsers = Mapping.size cleaned, totalEntries = Mapping.size cleaned\<rparr>, cleaned))"

definition resetUserRateLimit :: "string \<Rightarrow> RateLimitStore \<Rightarrow> RateLimitStore" where
  "resetUserRateLimit userId store = Mapping.delete userId store"

definition resetAllRateLimits :: "RateLimitStore \<Rightarrow> RateLimitStore" where
  "resetAllRateLimits store = Mapping.empty"

subsection \<open>Sequences of calls\<close>

text \<open>
  The requests of one user, one after the other, through one middleware: the call at the
  head of \<open>ts\<close> runs first, each call on the store the call before it left. The result
  lists what each call did to its response.
\<close>

fun checkAll ::
  "RateLimitConfig \<Rightarrow> RateLimitStore \<Rightarrow> string \<Rightarrow> int list
     \<Rightarrow> Decision list \<times> RateLimitStore" where
  "checkAll config store userId [] = ([], store)"
| "checkAll config store userId (t # ts) =
     (let (d, store') = check config store userId t;
          (ds, store'') = checkAll config store' userId ts
      in (d # ds, store''))"

subsection \<open>Calls with their clock readings\<close>

text \<open>
  The three values \<^verbatim>\<open>Date.now()\<close> returns during one call of the middleware, in the
  order the call reads them: in \<^verbatim>\<open>cleanupExpiredEntries\<close>, in the body, and in
  \<^verbatim>\<open>getUserRateLimitData\<close>.
\<close>

record ClockReadings =
  atCleanup :: int
  atBody :: int
  atData :: int

definition middlewareAt ::
  "RateLimitConfig \<Rightarrow> RateLimitStore \<Rightarrow> string \<Rightarrow> ClockReadings
     \<Rightarrow> Decision \<times> RateLimitStore" where
  "middlewareAt config store userId r =
     rateLimiterMiddleware config (atCleanup r) (atBody r) (atData r) userId store"

text \<open>
  The requests of one user, one after the other, each with its own clock readings: the
  call at the head of the list runs first, each call on the store the call before it left.
\<close>

fun middlewareAll ::
  "RateLimitConfig \<Rightarrow> RateLimitStore \<Rightarrow> string \<Rightarrow> ClockReadings list
     \<Rightarrow> Decision list \<times> RateLimitStore" where
  "middlewareAll config store userId [] = ([], store)"
| "middlewareAll config store userId (r # rs) =
     (let (d, store') = middlewareAt config store userId r;
          (ds, store'') = middlewareAll config store' userId rs
      in (d # ds, store''))"

text \<open>
  The record the body of the middleware leaves for the caller (the lookup, the test
  \<^verbatim>\<open>!userData || now > userData.resetTime\<close> and the increment), given what the lookup
  found in the purged store. It only serves to state the lemmas below.
\<close>

definition countedRecord :: "RateLimitConfig \<Rightarrow> int \<Rightarrow> UserRateLimit option \<Rightarrow> UserRateLimit" where
  "countedRecord config now found =
     (case found of
        None \<Rightarrow> \<lparr>count = 1, resetTime = now + windowSec config * 1000\<rparr>
      | Some d \<Rightarrow> if now > resetTime d
                  then \<lparr>count = 1, resetTime = now + windowSec config * 1000\<rparr>
                  else d\<lparr>count := count d + 1\<rparr>)"

section \<open>Properties\<close>

subsection \<open>What one call does\<close>

lemma lookup_cleanupExpiredEntries:
  "Mapping.lookup (cleanupExpiredEntries now store) k =
     (case Mapping.lookup store k of
        None \<Rightarrow> None
      | Some d \<Rightarrow> if now > resetTime d then None else Some d)"
  by (simp add: cleanupExpiredEntries_def Mapping.lookup_filter split: option.splits)

lemma ceilDiv1000_ceiling: "ceilDiv1000 x = \<lceil>real_of_int x / 1000\<rceil>"
proof -
  have "\<lfloor>real_of_int (- x) / real_of_int 1000\<rfloor> = (- x) div 1000"
    by (rule floor_divide_of_int_eq)
  then show ?thesis
    by (simp add: ceilDiv1000_def ceiling_def)
qed

text \<open>The store a call leaves: the purged store, with the caller's record counted up.\<close>

lemma check_store:
  "Mapping.lookup (snd (check config store k now)) k' =
     (if k' = k
      then Some (case Mapping.lookup (cleanupExpiredEntries now store) k of
                   None \<Rightarrow> \<lparr>count = 1, resetTime = now + windowSec config * 1000\<rparr>
                 | Some d \<Rightarrow> d\<lparr>count := count d + 1\<rparr>)
      else Mapping.lookup (cleanupExpiredEntries now store) k')"
  by (auto simp add: check_def rateLimiterMiddleware_def Let_def lookup_cleanupExpiredEntries
      split: option.splits)

text \<open>
  What a call reports. With a negative \<open>windowSec\<close> the record just created is already
  expired when \<^verbatim>\<open>getUserRateLimitData\<close> looks at it, hence the assumption.
\<close>

lemma check_decision:
  assumes "0 \<le> windowSec config"
  shows "fst (check config store k now) =
     (case Mapping.lookup (cleanupExpiredEntries now store) k of
        None \<Rightarrow> \<lparr>admitted = 1 \<le> limit config, X_RateLimit_Limit = limit config,
                 X_RateLimit_Remaining = max 0 (limit config - 1),
                 X_RateLimit_Reset = windowSec config\<rparr>
      | Some d \<Rightarrow> \<lparr>admitted = count d + 1 \<le> limit config, X_RateLimit_Limit = limit config,
                 X_RateLimit_Remaining = max 0 (limit config - (count d + 1)),
                 X_RateLimit_Reset = ceilDiv1000 (resetTime d - now)\<rparr>)"
  using assms
  by (auto simp add: check_def rateLimiterMiddleware_def Let_def lookup_cleanupExpiredEntries
      getUserRateLimitData_def ceilDiv1000_def split: option.splits)

text \<open>
  The same two facts for the middleware with its three clock readings, without any
  assumption: the store it leaves and what it reports.
\<close>

lemma middleware_store:
  "Mapping.lookup (snd (rateLimiterMiddleware config tc now td k store)) k' =
     (if k' = k
      then Some (countedRecord config now (Mapping.lookup (cleanupExpiredEntries tc store) k))
      else Mapping.lookup (cleanupExpiredEntries tc store) k')"
  by (auto simp add: rateLimiterMiddleware_def Let_def countedRecord_def split: option.splits)

lemma middleware_decision:
  "fst (rateLimiterMiddleware config tc now td k store) =
     (let r = countedRecord config now (Mapping.lookup (cleanupExpiredEntries tc store) k)
      in \<lparr>admitted = count r \<le> limit config,
          X_RateLimit_Limit = limit config,
          X_RateLimit_Remaining =
            (if td > resetTime r then max 0 (limit config) else max 0 (limit config - count r)),
          X_RateLimit_Reset =
            (if td > resetTime r then windowSec config else ceilDiv1000 (resetTime r - td))\<rparr>)"
  by (auto simp add: rateLimiterMiddleware_def Let_def countedRecord_def getUserRateLimitData_def
      split: option.splits)


subsection \<open>The reported quota state\<close>

text \<open>
  Claim C3, as stated, when the clock passes the end of the window during the call. With
  limit 2 and a window of 60 seconds user \<open>u\<close> has a record with count 2 whose window
  ends at 60000 ms. A call reads the clock as 60000 in the cleanup and in the body, so the
  call is counted in that window (count 3) and rejected; \<^verbatim>\<open>getUserRateLimitData\<close>
  then reads 60001, finds \<^verbatim>\<open>now > userData.resetTime\<close> and returns the limit and the
  window length: the response reports 2 remaining and a reset in 60 seconds, not
  \<open>max 0 (2 - 3)\<close> and \<open>\<lceil>(60000 - 60001) / 1000\<rceil>\<close>.
\<close>

theorem report_after_window_end_counterexample:
  "Mapping.lookup
     (snd (rateLimiterMiddleware \<lparr>limit = 2, windowSec = 60\<rparr> 60000 60000 60001 ''u''
        (Mapping.update ''u'' \<lparr>count = 2, resetTime = 60000\<rparr> Mapping.empty))) ''u''
     = Some \<lparr>count = 3, resetTime = 60000\<rparr>
   \<and> \<not> admitted
       (fst (rateLimiterMiddleware \<lparr>limit = 2, windowSec = 60\<rparr> 60000 60000 60001 ''u''
          (Mapping.update ''u'' \<lparr>count = 2, resetTime = 60000\<rparr> Mapping.empty)))
   \<and> X_RateLimit_Remaining
       (fst (rateLimiterMiddleware \<lparr>limit = 2, windowSec = 60\<rparr> 60000 60000 60001 ''u''
          (Mapping.update ''u'' \<lparr>count = 2, resetTime = 60000\<rparr> Mapping.empty))) = 2
   \<and> max 0 (2 - 3) \<noteq> (2 :: int)
   \<and> X_RateLimit_Reset
       (fst (rateLimiterMiddleware \<lparr>limit = 2, windowSec = 60\<rparr> 60000 60000 60001 ''u''
          (Mapping.update ''u'' \<lparr>count = 2, resetTime = 60000\<rparr> Mapping.empty))) = 60
   \<and> \<lceil>real_of_int (60000 - 60001) / 1000\<rceil> \<noteq> (60 :: int)"
proof -
  have "\<lceil>real_of_int (60000 - 60001) / 1000\<rceil> = (0 :: int)"
    by (simp add: ceiling_eq_iff)
  then show ?thesis
    by (simp add: middleware_store middleware_decision countedRecord_def
        lookup_cleanupExpiredEntries)
qed

text \<open>
  Claim C3, amended. Every call of the middleware, whatever its three clock readings,
  leaves a record \<open>r\<close> for the checked key and is admitted exactly when
  \<open>count r \<le> limit\<close>. Let \<open>td\<close> be the reading of \<^verbatim>\<open>getUserRateLimitData\<close>. If the
  window of \<open>r\<close> has not ended at \<open>td\<close> (\<open>td \<le> resetTime r\<close>), the call reports
  \<open>remaining = max 0 (limit - count r)\<close> and \<open>resetIn = \<lceil>(resetTime r - td) / 1000\<rceil>\<close>;
  if it has ended, the call reports \<open>remaining = max 0 limit\<close> and \<open>resetIn = windowSec\<close>.
  Neither value depends on whether the call is admitted or rejected.
\<close>

theorem middleware_reports_quota_state:
  "\<exists>r. Mapping.lookup (snd (rateLimiterMiddleware config tc now td k store)) k = Some r
     \<and> admitted (fst (rateLimiterMiddleware config tc now td k store)) = (count r \<le> limit config)
     \<and> X_RateLimit_Remaining (fst (rateLimiterMiddleware config tc now td k store))
         = (if td > resetTime r then max 0 (limit config) else max 0 (limit config - count r))
     \<and> X_RateLimit_Reset (fst (rateLimiterMiddleware config tc now td k store))
         = (if td > resetTime r then windowSec config
            else \<lceil>real_of_int (resetTime r - td) / 1000\<rceil>)"
  by (simp add: middleware_store middleware_decision Let_def ceilDiv1000_ceiling)

theorem middleware_reports_quota_state_witness:
  "X_RateLimit_Remaining
     (fst (rateLimiterMiddleware \<lparr>limit = 2, windowSec = 60\<rparr> 58499 58500 58501 ''u''
        (Mapping.update ''u'' \<lparr>count = 2, resetTime = 60000\<rparr> Mapping.empty))) = 0
   \<and> X_RateLimit_Reset
     (fst (rateLimiterMiddleware \<lparr>limit = 2, windowSec = 60\<rparr> 58499 58500 58501 ''u''
        (Mapping.update ''u'' \<lparr>count = 2, resetTime = 60000\<rparr> Mapping.empty))) = 2
   \<and> \<not> admitted
     (fst (rateLimiterMiddleware \<lparr>limit = 2, windowSec = 60\<rparr> 58499 58500 58501 ''u''
        (Mapping.update ''u'' \<lparr>count = 2, resetTime = 60000\<rparr> Mapping.empty)))"
proof -
  let ?c = "\<lparr>limit = 2, windowSec = 60\<rparr>"
  let ?s = "Mapping.update ''u'' \<lparr>count = 2, resetTime = 60000\<rparr> Mapping.empty"
  have r: "Mapping.lookup (snd (rateLimiterMiddleware ?c 58499 58500 58501 ''u'' ?s)) ''u''
             = Some \<lparr>count = 3, resetTime = 60000\<rparr>"
    by (simp add: middleware_store countedRecord_def lookup_cleanupExpiredEntries)
  have c: "\<lceil>real_of_int (60000 - 58501) / 1000\<rceil> = (2::int)"
    by (simp add: ceiling_eq_iff)
  from middleware_reports_quota_state [of ?c 58499 58500 58501 "''u''" ?s] r c show ?thesis
    by auto
qed

subsection \<open>Construction\<close>

text \<open>
  Claim C10. With neither \<^verbatim>\<open>RATE_LIMIT\<close> nor \<^verbatim>\<open>RATE_WINDOW_SEC\<close> set and no
  custom config, construction succeeds and the middleware has limit 5 and a window of 60
  seconds.
\<close>

theorem default_config:
  "createRateLimiterMiddleware \<lparr>RATE_LIMIT = None, RATE_WINDOW_SEC = None\<rparr> None
     = Inr \<lparr>limit = 5, windowSec = 60\<rparr>"
  by (simp add: createRateLimiterMiddleware_def getConfig_def notPositive_def parseInt_def
      isWhiteSpace_def isDigit_def digitValue_def)

subsection \<open>Expiry of a window\<close>




subsection \<open>Cleanup on every call\<close>

text \<open>
  Claim C6, as stated, at the end of a window. User \<open>b\<close> calls at time 0 (window end
  60000 ms); user \<open>a\<close> calls at 60000 ms. After that call the entry of \<open>b\<close> is still
  in the store although its window end is \<open>\<le> now\<close>: \<^verbatim>\<open>cleanupExpiredEntries\<close> deletes
  an entry only when \<^verbatim>\<open>now > data.resetTime\<close>.
\<close>

theorem cleanup_keeps_window_end_counterexample:
  "Mapping.lookup
     (snd (check \<lparr>limit = 5, windowSec = 60\<rparr>
        (snd (check \<lparr>limit = 5, windowSec = 60\<rparr> Mapping.empty ''b'' 0)) ''a'' 60000)) ''b''
     = Some \<lparr>count = 1, resetTime = 60000\<rparr>
   \<and> (60000 :: int) \<le> 60000"
  by (simp add: check_store lookup_cleanupExpiredEntries)

text \<open>
  Claim C6, amended. Every call of the middleware first scans the whole store and drops
  exactly the entries whose window end is strictly before \<open>tc\<close>, the clock reading
  \<^verbatim>\<open>cleanupExpiredEntries\<close> takes at the start of the call: an entry of another key is
  present afterwards if and only if it was present with \<open>resetTime \<ge> tc\<close>, and it is
  unchanged. An entry whose window ends at \<open>tc\<close>, or between \<open>tc\<close> and the later
  reading of the body, stays. When the clock does not run backwards between the two
  readings and the window is not negative, no entry with \<open>resetTime < tc\<close> is in the
  store when the call returns.
\<close>

theorem middleware_purges_expired:
  "(\<forall>k'. k' \<noteq> k \<longrightarrow>
       Mapping.lookup (snd (rateLimiterMiddleware config tc now td k store)) k'
         = (case Mapping.lookup store k' of
              None \<Rightarrow> None
            | Some d \<Rightarrow> if resetTime d < tc then None else Some d))
   \<and> (tc \<le> now \<and> 0 \<le> windowSec config \<longrightarrow>
        (\<forall>k' d. Mapping.lookup (snd (rateLimiterMiddleware config tc now td k store)) k' = Some d
           \<longrightarrow> \<not> resetTime d < tc))"
proof -
  have others: "\<forall>k'. k' \<noteq> k \<longrightarrow>
       Mapping.lookup (snd (rateLimiterMiddleware config tc now td k store)) k'
         = (case Mapping.lookup store k' of
              None \<Rightarrow> None
            | Some d \<Rightarrow> if resetTime d < tc then None else Some d)"
    by (simp add: middleware_store lookup_cleanupExpiredEntries)
  have none_left: "\<not> resetTime d < tc"
    if "tc \<le> now" and "0 \<le> windowSec config"
      and "Mapping.lookup (snd (rateLimiterMiddleware config tc now td k store)) k' = Some d"
    for k' d
    using that
    by (auto simp add: middleware_store countedRecord_def lookup_cleanupExpiredEntries
        split: if_splits option.splits)
  from others none_left show ?thesis
    by blast
qed

theorem middleware_purges_expired_witness:
  "Mapping.lookup
     (snd (rateLimiterMiddleware \<lparr>limit = 5, windowSec = 60\<rparr> 999 1000 1000 ''a''
        (Mapping.update ''b'' \<lparr>count = 2, resetTime = 998\<rparr>
           (Mapping.update ''c'' \<lparr>count = 3, resetTime = 999\<rparr> Mapping.empty)))) ''b''
     = None
   \<and> Mapping.lookup
     (snd (rateLimiterMiddleware \<lparr>limit = 5, windowSec = 60\<rparr> 999 1000 1000 ''a''
        (Mapping.update ''b'' \<lparr>count = 2, resetTime = 998\<rparr>
           (Mapping.update ''c'' \<lparr>count = 3, resetTime = 999\<rparr> Mapping.empty)))) ''c''
     = Some \<lparr>count = 3, resetTime = 999\<rparr>
   \<and> \<not> resetTime \<lparr>count = 3, resetTime = 999\<rparr> < 999"
proof -
  let ?c = "\<lparr>limit = 5, windowSec = 60\<rparr>"
  let ?s = "Mapping.update ''b'' \<lparr>count = 2, resetTime = 998\<rparr>
           (Mapping.update ''c'' \<lparr>count = 3, resetTime = 999\<rparr> Mapping.empty)"
  note purge = middleware_purges_expired [of "''a''" ?c 999 1000 1000 ?s]
  have b: "''b'' \<noteq> ''a''" and c: "''c'' \<noteq> ''a''"
    by simp_all
  have clock: "(999 :: int) \<le> 1000 \<and> 0 \<le> windowSec ?c"
    by simp
  from purge [THEN conjunct1, rule_format, OF b]
  have "Mapping.lookup (snd (rateLimiterMiddleware ?c 999 1000 1000 ''a'' ?s)) ''b'' = None"
    by simp
  moreover from purge [THEN conjunct1, rule_format, OF c]
  have kept: "Mapping.lookup (snd (rateLimiterMiddleware ?c 999 1000 1000 ''a'' ?s)) ''c''
      = Some \<lparr>count = 3, resetTime = 999\<rparr>"
    by simp
  moreover from purge [THEN conjunct2, rule_format, OF clock kept]
  have "\<not> resetTime \<lparr>count = 3, resetTime = 999\<rparr> < 999" .
  ultimately show ?thesis
    by (intro conjI)
qed

subsection \<open>Resetting a key\<close>

lemma resetUserRateLimit_absent:
  assumes "Mapping.lookup store k = None"
  shows "resetUserRateLimit k store = store"
proof (rule mapping_eqI)
  fix x
  show "Mapping.lookup (resetUserRateLimit k store) x = Mapping.lookup store x"
    using assms by (cases "x = k") (simp_all add: resetUserRateLimit_def)
qed

text \<open>A call for a key with no live record reports what it reports on the empty store.\<close>

lemma check_fresh_decision:
  assumes "Mapping.lookup (cleanupExpiredEntries now store) k = None"
  shows "fst (check config store k now) = fst (check config Mapping.empty k now)"
  using assms
  by (simp add: check_def rateLimiterMiddleware_def Let_def getUserRateLimitData_def
      lookup_cleanupExpiredEntries)

lemma check_fresh_admitted:
  assumes "Mapping.lookup (cleanupExpiredEntries now store) k = None"
  shows "admitted (fst (check config store k now)) = (1 \<le> limit config)"
  using assms
  by (auto simp add: check_def rateLimiterMiddleware_def Let_def)

text \<open>
  Claim C9. \<open>resetUserRateLimit k\<close> removes the record of \<open>k\<close> and leaves every other
  key alone; on a store without \<open>k\<close> it changes nothing, and it raises no error (it is a
  total function), so doing it twice is doing it once. The next call of \<open>check\<close> for
  \<open>k\<close> reports what it would report on an empty store, opens a new window with count 1,
  and is admitted whenever the limit is at least 1.
\<close>

theorem resetUserRateLimit_restores:
  "Mapping.lookup (resetUserRateLimit k store) k = None
   \<and> (\<forall>k'. k' \<noteq> k \<longrightarrow>
         Mapping.lookup (resetUserRateLimit k store) k' = Mapping.lookup store k')
   \<and> (Mapping.lookup store k = None \<longrightarrow> resetUserRateLimit k store = store)
   \<and> resetUserRateLimit k (resetUserRateLimit k store) = resetUserRateLimit k store
   \<and> fst (check config (resetUserRateLimit k store) k now)
       = fst (check config Mapping.empty k now)
   \<and> (1 \<le> limit config \<longrightarrow> admitted (fst (check config (resetUserRateLimit k store) k now)))
   \<and> Mapping.lookup (snd (check config (resetUserRateLimit k store) k now)) k
       = Some \<lparr>count = 1, resetTime = now + windowSec config * 1000\<rparr>"
proof -
  have gone: "Mapping.lookup (resetUserRateLimit k store) k = None"
    by (simp add: resetUserRateLimit_def)
  then have purged:
    "Mapping.lookup (cleanupExpiredEntries now (resetUserRateLimit k store)) k = None"
    by (simp add: lookup_cleanupExpiredEntries)
  have others: "\<forall>k'. k' \<noteq> k \<longrightarrow>
      Mapping.lookup (resetUserRateLimit k store) k' = Mapping.lookup store k'"
    by (simp add: resetUserRateLimit_def)
  have absent: "Mapping.lookup store k = None \<longrightarrow> resetUserRateLimit k store = store"
    by (simp add: resetUserRateLimit_absent)
  have twice: "resetUserRateLimit k (resetUserRateLimit k store) = resetUserRateLimit k store"
    by (rule resetUserRateLimit_absent) (rule gone)
  have new: "fst (check config (resetUserRateLimit k store) k now)
       = fst (check config Mapping.empty k now)"
    by (rule check_fresh_decision) (rule purged)
  have adm: "1 \<le> limit config \<longrightarrow>
      admitted (fst (check config (resetUserRateLimit k store) k now))"
    by (simp add: check_fresh_admitted [OF purged])
  have rec: "Mapping.lookup (snd (check config (resetUserRateLimit k store) k now)) k
       = Some \<lparr>count = 1, resetTime = now + windowSec config * 1000\<rparr>"
    by (simp add: check_store purged)
  from gone others absent twice new adm rec show ?thesis
    by blast
qed

theorem resetUserRateLimit_restores_witness:
  "\<not> admitted (fst (check \<lparr>limit = 1, windowSec = 60\<rparr>
        (Mapping.update ''u'' \<lparr>count = 1, resetTime = 61000\<rparr> Mapping.empty) ''u'' 2000))
   \<and> admitted (fst (check \<lparr>limit = 1, windowSec = 60\<rparr>
        (resetUserRateLimit ''u''
           (Mapping.update ''u'' \<lparr>count = 1, resetTime = 61000\<rparr> Mapping.empty)) ''u'' 2000))
   \<and> resetUserRateLimit ''v''
        (Mapping.update ''u'' \<lparr>count = 1, resetTime = 61000\<rparr> Mapping.empty)
       = Mapping.update ''u'' \<lparr>count = 1, resetTime = 61000\<rparr> Mapping.empty"
proof -
  let ?c = "\<lparr>limit = 1, windowSec = 60\<rparr>"
  let ?s = "Mapping.update ''u'' \<lparr>count = 1, resetTime = 61000\<rparr> Mapping.empty"
  have rejected: "\<not> admitted (fst (check ?c ?s ''u'' 2000))"
    by (simp add: check_decision lookup_cleanupExpiredEntries)
  have absent: "Mapping.lookup ?s ''v'' = None"
    by simp
  have valid: "1 \<le> limit ?c"
    by simp
  from resetUserRateLimit_restores [of "''u''" ?s ?c 2000]
    resetUserRateLimit_restores [of "''v''" ?s ?c 2000] rejected absent valid
  show ?thesis
    by blast
qed


subsection \<open>Sequential calls within one window\<close>

lemma checkAll_Cons:
  "checkAll config store k (t # ts) =
     (fst (check config store k t) # fst (checkAll config (snd (check config store k t)) k ts),
      snd (checkAll config (snd (check config store k t)) k ts))"
  by (simp add: split_beta)

declare checkAll.simps(2) [simp del]

lemma middlewareAll_Cons:
  "middlewareAll config store k (r # rs) =
     (fst (middlewareAt config store k r)
        # fst (middlewareAll config (snd (middlewareAt config store k r)) k rs),
      snd (middlewareAll config (snd (middlewareAt config store k r)) k rs))"
  by (simp add: split_beta)

declare middlewareAll.simps(2) [simp del]

text \<open>
  From a live record \<open>d\<close> on, each call none of whose clock readings is after the end of
  the window counts one more: call number \<open>i\<close> (from 0) is the \<open>(count d + i + 1)\<close>-th
  of the window.
\<close>

lemma middlewareAll_in_window:
  assumes "Mapping.lookup store k = Some d"
    and "\<forall>r \<in> set rs. atCleanup r \<le> resetTime d \<and> atBody r \<le> resetTime d
           \<and> atData r \<le> resetTime d"
    and "i < length rs"
  shows "fst (middlewareAll config store k rs) ! i =
     \<lparr>admitted = count d + int i + 1 \<le> limit config,
      X_RateLimit_Limit = limit config,
      X_RateLimit_Remaining = max 0 (limit config - (count d + int i + 1)),
      X_RateLimit_Reset = ceilDiv1000 (resetTime d - atData (rs ! i))\<rparr>"
  using assms
proof (induction rs arbitrary: store d i)
  case Nil
  then show ?case by simp
next
  case (Cons r rs)
  from Cons.prems
  have live: "Mapping.lookup (cleanupExpiredEntries (atCleanup r) store) k = Some d"
    by (simp add: lookup_cleanupExpiredEntries)
  from Cons.prems have body: "\<not> atBody r > resetTime d" and data: "\<not> atData r > resetTime d"
    by simp_all
  from live body
  have counted: "countedRecord config (atBody r)
      (Mapping.lookup (cleanupExpiredEntries (atCleanup r) store) k) = d\<lparr>count := count d + 1\<rparr>"
    by (simp add: countedRecord_def)
  have next_rec: "Mapping.lookup (snd (middlewareAt config store k r)) k
      = Some (d\<lparr>count := count d + 1\<rparr>)"
    by (simp add: middlewareAt_def middleware_store counted)
  show ?case
  proof (cases i)
    case 0
    with data show ?thesis
      by (simp add: middlewareAll_Cons middlewareAt_def middleware_decision counted)
  next
    case (Suc j)
    with Cons.prems have j: "j < length rs" by simp
    have "fst (middlewareAll config (snd (middlewareAt config store k r)) k rs) ! j =
      \<lparr>admitted = count (d\<lparr>count := count d + 1\<rparr>) + int j + 1 \<le> limit config,
       X_RateLimit_Limit = limit config,
       X_RateLimit_Remaining =
         max 0 (limit config - (count (d\<lparr>count := count d + 1\<rparr>) + int j + 1)),
       X_RateLimit_Reset =
         ceilDiv1000 (resetTime (d\<lparr>count := count d + 1\<rparr>) - atData (rs ! j))\<rparr>"
      using Cons.prems j by (intro Cons.IH [OF next_rec]) simp_all
    with Suc show ?thesis
      by (simp add: middlewareAll_Cons algebra_simps)
  qed
qed

text \<open>
  Claim C1. A key without a live record makes the calls \<open>r0 # rs\<close> one after the other.
  The body of the first call reads the clock as \<open>atBody r0\<close> and opens a window that ends
  at \<open>atBody r0 + windowSec * 1000\<close>. All calls are within that window: no clock reading
  of a later call, and not the last reading of the first call, is after its end. Then the
  \<open>k\<close>-th call (\<open>k = i + 1\<close>, \<open>i\<close> the index from 0) is admitted exactly when
  \<open>k \<le> limit\<close>, and it reports \<open>limit - k\<close> remaining when \<open>k \<le> limit\<close> and 0
  remaining afterwards: the first \<open>limit\<close> calls are admitted, every further call of the
  window is rejected, and the remaining count is never negative.
\<close>

theorem sequential_calls_in_one_window:
  assumes fresh: "Mapping.lookup store k = None
                  \<or> (\<exists>d. Mapping.lookup store k = Some d \<and> resetTime d < atBody r0)"
    and first: "atData r0 \<le> atBody r0 + windowSec config * 1000"
    and within: "\<forall>r \<in> set rs. atCleanup r \<le> atBody r0 + windowSec config * 1000
                   \<and> atBody r \<le> atBody r0 + windowSec config * 1000
                   \<and> atData r \<le> atBody r0 + windowSec config * 1000"
    and i: "i < length (r0 # rs)"
  shows "admitted (fst (middlewareAll config store k (r0 # rs)) ! i) = (int i + 1 \<le> limit config)
         \<and> X_RateLimit_Remaining (fst (middlewareAll config store k (r0 # rs)) ! i)
             = (if int i + 1 \<le> limit config then limit config - (int i + 1) else 0)"
proof -
  let ?d = "\<lparr>count = 1, resetTime = atBody r0 + windowSec config * 1000\<rparr>"
  from fresh
  have counted: "countedRecord config (atBody r0)
      (Mapping.lookup (cleanupExpiredEntries (atCleanup r0) store) k) = ?d"
    by (auto simp add: countedRecord_def lookup_cleanupExpiredEntries)
  show ?thesis
  proof (cases i)
    case 0
    with first show ?thesis
      by (simp add: middlewareAll_Cons middlewareAt_def middleware_decision counted)
  next
    case (Suc j)
    have rec: "Mapping.lookup (snd (middlewareAt config store k r0)) k = Some ?d"
      by (simp add: middlewareAt_def middleware_store counted)
    from Suc i have j: "j < length rs" by simp
    from within have within': "\<forall>r \<in> set rs. atCleanup r \<le> resetTime ?d
        \<and> atBody r \<le> resetTime ?d \<and> atData r \<le> resetTime ?d"
      by simp
    from middlewareAll_in_window [OF rec within' j] Suc show ?thesis
      by (simp add: middlewareAll_Cons algebra_simps)
  qed
qed

theorem sequential_calls_in_one_window_witness:
  "admitted (fst (middlewareAll \<lparr>limit = 2, windowSec = 60\<rparr> Mapping.empty ''u''
      [\<lparr>atCleanup = 0, atBody = 0, atData = 1\<rparr>,
       \<lparr>atCleanup = 29999, atBody = 30000, atData = 30001\<rparr>,
       \<lparr>atCleanup = 59998, atBody = 59999, atData = 60000\<rparr>]) ! 1)
   \<and> X_RateLimit_Remaining (fst (middlewareAll \<lparr>limit = 2, windowSec = 60\<rparr> Mapping.empty ''u''
      [\<lparr>atCleanup = 0, atBody = 0, atData = 1\<rparr>,
       \<lparr>atCleanup = 29999, atBody = 30000, atData = 30001\<rparr>,
       \<lparr>atCleanup = 59998, atBody = 59999, atData = 60000\<rparr>]) ! 1) = 0
   \<and> \<not> admitted (fst (middlewareAll \<lparr>limit = 2, windowSec = 60\<rparr> Mapping.empty ''u''
      [\<lparr>atCleanup = 0, atBody = 0, atData = 1\<rparr>,
       \<lparr>atCleanup = 29999, atBody = 30000, atData = 30001\<rparr>,
       \<lparr>atCleanup = 59998, atBody = 59999, atData = 60000\<rparr>]) ! 2)
   \<and> X_RateLimit_Remaining (fst (middlewareAll \<lparr>limit = 2, windowSec = 60\<rparr> Mapping.empty ''u''
      [\<lparr>atCleanup = 0, atBody = 0, atData = 1\<rparr>,
       \<lparr>atCleanup = 29999, atBody = 30000, atData = 30001\<rparr>,
       \<lparr>atCleanup = 59998, atBody = 59999, atData = 60000\<rparr>]) ! 2) = 0"
proof -
  let ?c = "\<lparr>limit = 2, windowSec = 60\<rparr>"
  let ?s = "Mapping.empty :: RateLimitStore"
  let ?r0 = "\<lparr>atCleanup = 0, atBody = 0, atData = 1\<rparr>"
  let ?rs = "[\<lparr>atCleanup = 29999, atBody = 30000, atData = 30001\<rparr>,
       \<lparr>atCleanup = 59998, atBody = 59999, atData = 60000\<rparr>]"
  have fresh: "Mapping.lookup ?s ''u'' = None
      \<or> (\<exists>d. Mapping.lookup ?s ''u'' = Some d \<and> resetTime d < atBody ?r0)"
    by simp
  have first: "atData ?r0 \<le> atBody ?r0 + windowSec ?c * 1000"
    by simp
  have within: "\<forall>r \<in> set ?rs. atCleanup r \<le> atBody ?r0 + windowSec ?c * 1000
                   \<and> atBody r \<le> atBody ?r0 + windowSec ?c * 1000
                   \<and> atData r \<le> atBody ?r0 + windowSec ?c * 1000"
    by simp
  have second: "(1::nat) < length (?r0 # ?rs)" and third: "(2::nat) < length (?r0 # ?rs)"
    by simp_all
  from sequential_calls_in_one_window [OF fresh first within second]
    sequential_calls_in_one_window [OF fresh first within third]
  show ?thesis
    by simp
qed

subsection \<open>Distinct keys\<close>

text \<open>What a call reports for a key depends on the store only through the key's live record.\<close>

lemma check_decision_cong:
  assumes "Mapping.lookup (cleanupExpiredEntries now s1) k
             = Mapping.lookup (cleanupExpiredEntries now s2) k"
  shows "fst (check config s1 k now) = fst (check config s2 k now)"
  using assms
  by (simp add: check_def rateLimiterMiddleware_def Let_def getUserRateLimitData_def)

lemma cleanup_after_check_other:
  assumes "a \<noteq> b" and "t \<le> now"
  shows "Mapping.lookup (cleanupExpiredEntries now (snd (check config store a t))) b
           = Mapping.lookup (cleanupExpiredEntries now store) b"
  using assms
  by (auto simp add: lookup_cleanupExpiredEntries check_store split: option.splits)

lemma cleanup_after_checkAll_other:
  assumes "a \<noteq> b" and "\<forall>t \<in> set ts. t \<le> now"
  shows "Mapping.lookup (cleanupExpiredEntries now (snd (checkAll config store a ts))) b
           = Mapping.lookup (cleanupExpiredEntries now store) b"
  using assms
proof (induction ts arbitrary: store)
  case Nil
  then show ?case by simp
next
  case (Cons t ts)
  then have "Mapping.lookup
      (cleanupExpiredEntries now (snd (checkAll config (snd (check config store a t)) a ts))) b
      = Mapping.lookup (cleanupExpiredEntries now (snd (check config store a t))) b"
    by simp
  also have "\<dots> = Mapping.lookup (cleanupExpiredEntries now store) b"
    using Cons.prems by (simp add: cleanup_after_check_other)
  finally show ?case
    by (simp add: checkAll_Cons)
qed

text \<open>
  Claim C7. Let \<open>a\<close> and \<open>b\<close> be distinct keys and let \<open>a\<close> make any number of
  calls, at times up to \<open>now\<close>. A record of \<open>b\<close> that is not expired at \<open>now\<close> is the
  same afterwards, and a call for \<open>b\<close> at \<open>now\<close> is admitted or rejected, and reports
  the limit, the remaining count and the reset time, exactly as if \<open>a\<close> had made no call:
  exhausting the quota of \<open>a\<close> changes nothing for \<open>b\<close>.
\<close>

theorem distinct_keys_independent:
  assumes "a \<noteq> b" and "\<forall>t \<in> set ts. t \<le> now"
  shows "(\<forall>d. Mapping.lookup store b = Some d \<and> \<not> now > resetTime d \<longrightarrow>
            Mapping.lookup (snd (checkAll config store a ts)) b = Some d)
         \<and> fst (check config (snd (checkAll config store a ts)) b now)
             = fst (check config store b now)"
proof -
  note same = cleanup_after_checkAll_other [OF assms, of config store]
  have kept: "Mapping.lookup (snd (checkAll config store a ts)) b = Some d"
    if "Mapping.lookup store b = Some d" and "\<not> now > resetTime d" for d
  proof -
    from that have "Mapping.lookup (cleanupExpiredEntries now store) b = Some d"
      by (simp add: lookup_cleanupExpiredEntries)
    with same
    have "Mapping.lookup (cleanupExpiredEntries now (snd (checkAll config store a ts))) b = Some d"
      by simp
    then show ?thesis
      by (simp add: lookup_cleanupExpiredEntries split: option.splits if_splits)
  qed
  have "fst (check config (snd (checkAll config store a ts)) b now)
             = fst (check config store b now)"
    by (rule check_decision_cong) (rule same)
  with kept show ?thesis
    by blast
qed

theorem distinct_keys_independent_witness:
  "Mapping.lookup
     (snd (checkAll \<lparr>limit = 1, windowSec = 60\<rparr>
        (Mapping.update ''b'' \<lparr>count = 1, resetTime = 50000\<rparr> Mapping.empty) ''a'' [10, 20, 30]))
     ''b'' = Some \<lparr>count = 1, resetTime = 50000\<rparr>
   \<and> fst (check \<lparr>limit = 1, windowSec = 60\<rparr>
       (snd (checkAll \<lparr>limit = 1, windowSec = 60\<rparr>
          (Mapping.update ''b'' \<lparr>count = 1, resetTime = 50000\<rparr> Mapping.empty) ''a'' [10, 20, 30]))
       ''b'' 30)
     = fst (check \<lparr>limit = 1, windowSec = 60\<rparr>
         (Mapping.update ''b'' \<lparr>count = 1, resetTime = 50000\<rparr> Mapping.empty) ''b'' 30)"
proof -
  let ?c = "\<lparr>limit = 1, windowSec = 60\<rparr>"
  let ?s = "Mapping.update ''b'' \<lparr>count = 1, resetTime = 50000\<rparr> Mapping.empty"
  have distinct: "''a'' \<noteq> ''b''"
    by simp
  have earlier: "\<forall>t \<in> set [10, 20, 30 :: int]. t \<le> 30"
    by simp
  have live: "Mapping.lookup ?s ''b'' = Some \<lparr>count = 1, resetTime = 50000\<rparr>
      \<and> \<not> 30 > resetTime \<lparr>count = 1, resetTime = 50000\<rparr>"
    by simp
  from distinct_keys_independent [OF distinct earlier, of ?s ?c] live show ?thesis
    by blast
qed

subsection \<open>Statistics\<close>

lemma cleanup_twice:
  assumes "now \<le> now'"
  shows "cleanupExpiredEntries now' (cleanupExpiredEntries now store)
           = cleanupExpiredEntries now' store"
proof (rule mapping_eqI)
  fix x
  show "Mapping.lookup (cleanupExpiredEntries now' (cleanupExpiredEntries now store)) x
          = Mapping.lookup (cleanupExpiredEntries now' store) x"
    using assms by (auto simp add: lookup_cleanupExpiredEntries split: option.splits)
qed

lemma keys_cleanupExpiredEntries:
  "Mapping.keys (cleanupExpiredEntries now store)
     = {k. \<exists>d. Mapping.lookup store k = Some d \<and> \<not> now > resetTime d}"
  by (auto simp add: Mapping.keys_dom_lookup lookup_cleanupExpiredEntries dom_def
      split: option.splits if_splits)

lemma size_card_keys: "Mapping.size m = card (Mapping.keys m)"
  by (simp add: Mapping.size_def)

text \<open>
  Claim C8. \<open>getRateLimitStats\<close> purges the expired records (those with
  \<open>now > resetTime\<close>) and returns the number of keys then in the store, which are the
  keys that had a record not yet expired. It creates no record and changes none: every
  record in the store afterwards was there before, every record not expired is still
  there, count included. A later call of \<open>check\<close>, for any key and config, returns the
  same decision and leaves the same store as if the statistics had not been read.
\<close>

theorem getRateLimitStats_only_observes:
  "activeUsers (fst (getRateLimitStats now store))
     = card (Mapping.keys (snd (getRateLimitStats now store)))
   \<and> Mapping.keys (snd (getRateLimitStats now store))
       = {k. \<exists>d. Mapping.lookup store k = Some d \<and> \<not> now > resetTime d}
   \<and> (\<forall>k d. Mapping.lookup (snd (getRateLimitStats now store)) k = Some d
          \<longrightarrow> Mapping.lookup store k = Some d)
   \<and> (\<forall>k d. Mapping.lookup store k = Some d \<and> \<not> now > resetTime d
          \<longrightarrow> Mapping.lookup (snd (getRateLimitStats now store)) k = Some d)
   \<and> (\<forall>config k now'. now \<le> now'
          \<longrightarrow> check config (snd (getRateLimitStats now store)) k now'
               = check config store k now')"
proof -
  have after: "snd (getRateLimitStats now store) = cleanupExpiredEntries now store"
    by (simp add: getRateLimitStats_def Let_def)
  have number: "activeUsers (fst (getRateLimitStats now store))
      = card (Mapping.keys (cleanupExpiredEntries now store))"
    by (simp add: getRateLimitStats_def Let_def size_card_keys)
  have sub: "\<forall>k d. Mapping.lookup (cleanupExpiredEntries now store) k = Some d
          \<longrightarrow> Mapping.lookup store k = Some d"
    by (auto simp add: lookup_cleanupExpiredEntries split: option.splits if_splits)
  have kept: "\<forall>k d. Mapping.lookup store k = Some d \<and> \<not> now > resetTime d
          \<longrightarrow> Mapping.lookup (cleanupExpiredEntries now store) k = Some d"
    by (simp add: lookup_cleanupExpiredEntries)
  have later: "check config (cleanupExpiredEntries now store) k now' = check config store k now'"
    if "now \<le> now'" for config k now'
    using that by (simp add: check_def rateLimiterMiddleware_def cleanup_twice)
  from number sub kept later show ?thesis
    unfolding after keys_cleanupExpiredEntries by blast
qed

theorem getRateLimitStats_only_observes_witness:
  "activeUsers (fst (getRateLimitStats 1000
      (Mapping.update ''a'' \<lparr>count = 1, resetTime = 500\<rparr>
         (Mapping.update ''b'' \<lparr>count = 2, resetTime = 2000\<rparr> Mapping.empty)))) = 1
   \<and> Mapping.lookup (snd (getRateLimitStats 1000
      (Mapping.update ''a'' \<lparr>count = 1, resetTime = 500\<rparr>
         (Mapping.update ''b'' \<lparr>count = 2, resetTime = 2000\<rparr> Mapping.empty)))) ''b''
       = Some \<lparr>count = 2, resetTime = 2000\<rparr>
   \<and> check \<lparr>limit = 2, windowSec = 60\<rparr> (snd (getRateLimitStats 1000
      (Mapping.update ''a'' \<lparr>count = 1, resetTime = 500\<rparr>
         (Mapping.update ''b'' \<lparr>count = 2, resetTime = 2000\<rparr> Mapping.empty)))) ''b'' 1500
       = check \<lparr>limit = 2, windowSec = 60\<rparr>
          (Mapping.update ''a'' \<lparr>count = 1, resetTime = 500\<rparr>
             (Mapping.update ''b'' \<lparr>count = 2, resetTime = 2000\<rparr> Mapping.empty)) ''b'' 1500"
proof -
  let ?s = "Mapping.update ''a'' \<lparr>count = 1, resetTime = 500\<rparr>
         (Mapping.update ''b'' \<lparr>count = 2, resetTime = 2000\<rparr> Mapping.empty)"
  have live: "{k. \<exists>d. Mapping.lookup ?s k = Some d \<and> \<not> 1000 > resetTime d} = {''b''}"
    by (auto simp add: Mapping.lookup_update' split: if_splits)
  have b: "Mapping.lookup ?s ''b'' = Some \<lparr>count = 2, resetTime = 2000\<rparr>
      \<and> \<not> 1000 > resetTime \<lparr>count = 2, resetTime = 2000\<rparr>"
    by simp
  have later: "(1000::int) \<le> 1500"
    by simp
  note stats = getRateLimitStats_only_observes [of 1000 ?s]
  note number = stats [THEN conjunct1]
  note keys = stats [THEN conjunct2, THEN conjunct1]
  note kept = stats [THEN conjunct2, THEN conjunct2, THEN conjunct2, THEN conjunct1]
  note unaffected = stats [THEN conjunct2, THEN conjunct2, THEN conjunct2, THEN conjunct2]
  from number keys live have "activeUsers (fst (getRateLimitStats 1000 ?s)) = 1"
    by simp
  moreover from kept [rule_format, OF b]
  have "Mapping.lookup (snd (getRateLimitStats 1000 ?s)) ''b''
      = Some \<lparr>count = 2, resetTime = 2000\<rparr>" .
  moreover from unaffected [rule_format, OF later]
  have "check \<lparr>limit = 2, windowSec = 60\<rparr> (snd (getRateLimitStats 1000 ?s)) ''b'' 1500
      = check \<lparr>limit = 2, windowSec = 60\<rparr> ?s ''b'' 1500" .
  ultimately show ?thesis
    by (intro conjI)
qed


subsection \<open>Validation at construction\<close>

text \<open>
  Construction throws exactly when \<^verbatim>\<open>getConfig\<close> does, that is when one of the two
  environment values (or its default) does not parse to a positive number. The custom
  config plays no part in it.
\<close>

lemma createRateLimiterMiddleware_fails_iff:
  "(\<exists>err. createRateLimiterMiddleware env customConfig = Inl err)
     \<longleftrightarrow> notPositive (parseInt (case RATE_LIMIT env of None \<Rightarrow> ''5'' | Some s \<Rightarrow> s))
         \<or> notPositive (parseInt (case RATE_WINDOW_SEC env of None \<Rightarrow> ''60'' | Some s \<Rightarrow> s))"
  by (auto simp add: createRateLimiterMiddleware_def getConfig_def Let_def
      split: sum.splits option.splits if_splits)

text \<open>
  Claim C4, evaluated. With the environment unset and the custom config
  \<^verbatim>\<open>{ limit: 0 }\<close>, construction succeeds and the middleware has the effective limit 0:
  the checks of \<^verbatim>\<open>getConfig\<close> run on the environment's values before the custom
  properties are laid over them. That middleware rejects the first request of every user.
  In the other direction, with \<^verbatim>\<open>RATE_LIMIT=0\<close> in the environment and the custom
  config \<^verbatim>\<open>{ limit: 5, windowSec: 60 }\<close>, whose effective values are both positive,
  construction throws.
\<close>

theorem custom_config_not_validated:
  "createRateLimiterMiddleware \<lparr>RATE_LIMIT = None, RATE_WINDOW_SEC = None\<rparr>
     (Some \<lparr>customLimit = Some 0, customWindowSec = None\<rparr>)
     = Inr \<lparr>limit = 0, windowSec = 60\<rparr>
   \<and> \<not> admitted (fst (check \<lparr>limit = 0, windowSec = 60\<rparr> Mapping.empty ''u'' 0))
   \<and> createRateLimiterMiddleware \<lparr>RATE_LIMIT = Some ''0'', RATE_WINDOW_SEC = None\<rparr>
       (Some \<lparr>customLimit = Some 5, customWindowSec = Some 60\<rparr>)
       = Inl RATE_LIMIT_must_be_a_positive_number"
  by (simp add: createRateLimiterMiddleware_def getConfig_def notPositive_def parseInt_def
      isWhiteSpace_def isDigit_def digitValue_def check_decision lookup_cleanupExpiredEntries)

subsection \<open>Several middlewares\<close>

text \<open>
  Claim C5, evaluated. Middlewares made by \<^verbatim>\<open>createRateLimiterMiddleware\<close> differ in
  their config only: the store is the one \<^verbatim>\<open>rateLimitStore\<close> of the module, so a call
  through one middleware runs on the store the other left. The usage example of the
  repository mounts a general middleware (limit 100) on every route and a strict one
  (limit 5) on one route, so a request to that route passes the general middleware and then
  the strict one. Starting from the empty store, each request of user \<open>u\<close> is counted
  twice on the one record of \<open>u\<close>: the first two requests pass, and the third is rejected
  by the strict middleware at count 6, although it is only the third request to the route.
  On a store of its own the strict middleware admits that third request.
\<close>

theorem shared_store_breaks_per_route_limit:
  "(let general = \<lparr>limit = 100, windowSec = 60\<rparr>;
        strict = \<lparr>limit = 5, windowSec = 60\<rparr>;
        s1 = snd (check general Mapping.empty ''u'' 0);
        s2 = snd (check strict s1 ''u'' 0);
        s3 = snd (check general s2 ''u'' 1000);
        s4 = snd (check strict s3 ''u'' 1000);
        s5 = snd (check general s4 ''u'' 2000)
    in admitted (fst (check general Mapping.empty ''u'' 0))
       \<and> admitted (fst (check strict s1 ''u'' 0))
       \<and> admitted (fst (check general s2 ''u'' 1000))
       \<and> admitted (fst (check strict s3 ''u'' 1000))
       \<and> admitted (fst (check general s4 ''u'' 2000))
       \<and> \<not> admitted (fst (check strict s5 ''u'' 2000))
       \<and> Mapping.lookup (snd (check strict s5 ''u'' 2000)) ''u''
           = Some \<lparr>count = 6, resetTime = 60000\<rparr>
       \<and> admitted (fst (checkAll strict Mapping.empty ''u'' [0, 1000, 2000]) ! 2))"
  by (simp add: Let_def check_decision check_store lookup_cleanupExpiredEntries checkAll_Cons)

end
